theory Spec2Isabelle
  imports Main "HOL-Library.AList"
begin

section \<open>JavaScript values, keys and containers\<close>

text \<open>
  The two containers of \<^verbatim>\<open>source/supports\<close> hold arbitrary JavaScript values and decide
  several branches by truthiness (\<^verbatim>\<open>a || b\<close>, \<^verbatim>\<open>if (callback)\<close>). A value is
  therefore a tagged union. Numbers carry an integer payload and a separate \<^verbatim>\<open>NaN\<close>:
  the code only ever asks whether a number is zero or \<^verbatim>\<open>NaN\<close>. An object is its
  reference; every object is truthy.
\<close>

datatype jsval =
    Undefined
  | Null
  | JBool bool
  | JNum int
  | JNaN
  | JStr string
  | JObj nat

fun truthy :: "jsval \<Rightarrow> bool" where
  "truthy Undefined = False"
| "truthy Null = False"
| "truthy (JBool b) = b"
| "truthy (JNum n) = (n \<noteq> 0)"
| "truthy JNaN = False"
| "truthy (JStr s) = (s \<noteq> [])"
| "truthy (JObj r) = True"

text \<open>\<^verbatim>\<open>a || b\<close>: the left operand when it is truthy, the right one otherwise.\<close>

definition js_or :: "jsval \<Rightarrow> jsval \<Rightarrow> jsval" where
  "js_or a b = (if truthy a then a else b)"

text \<open>
  Keys are property keys: strings and symbols (a symbol is its identity). On these the
  loose comparison \<^verbatim>\<open>key == index\<close> of \<^verbatim>\<open>dispatch\<close> and the key comparison of
  \<^verbatim>\<open>Map\<close> are both equality.
\<close>

datatype key = KStr string | KSym nat

fun is_string_key :: "key \<Rightarrow> bool" where
  "is_string_key (KStr s) = True"
| "is_string_key (KSym n) = False"

text \<open>
  A listener \<^verbatim>\<open>(payload) => void\<close> is known to the store by reference only: it is kept
  in a \<^verbatim>\<open>Set\<close> and called. It is modelled by its identity, and a call is recorded as
  the pair of the listener and the payload it received. Listeners are observers: what a
  listener does to the store from inside its own call (re-entrancy) is outside the model.
\<close>

type_synonym callable = nat

type_synonym invocation = "callable \<times> jsval"

text \<open>
  A JavaScript \<^verbatim>\<open>Map\<close> is an association list in insertion order:
  \<^verbatim>\<open>map.get(k)\<close> is \<^const>\<open>map_of\<close>, \<^verbatim>\<open>map.set(k, v)\<close> is \<^const>\<open>AList.update\<close>
  (an existing key keeps its place, a new one goes last), \<^verbatim>\<open>map.delete(k)\<close> is
  \<^const>\<open>AList.delete\<close> and \<^verbatim>\<open>map.clear()\<close> leaves the empty list.
  A JavaScript \<^verbatim>\<open>Set\<close> is a list in insertion order; \<^verbatim>\<open>set.add(x)\<close> leaves a set
  that already holds \<open>x\<close> as it is.
\<close>

definition Set_add :: "'a \<Rightarrow> 'a list \<Rightarrow> 'a list" where
  "Set_add x xs = (if x \<in> set xs then xs else xs @ [x])"

text \<open>
  \<^verbatim>\<open>IParameter<V> = { value: V; defaultValue?: V; callback?: IParameterCallable<V> }\<close>.
  A missing \<^verbatim>\<open>defaultValue\<close> reads as \<^verbatim>\<open>undefined\<close>; a missing callback is \<open>None\<close>.
  The field \<^verbatim>\<open>value\<close> is written \<open>value_p\<close>.
\<close>

record IParameter =
  value_p :: jsval
  defaultValue :: jsval
  callback :: "callable option"

section \<open>DynamicParameter\<close>

text \<open>
  The fields of the class are \<open>initial\<close>, \<open>stack\<close> and \<open>signal\<close>. \<open>initial\<close> is the
  object handed to the constructor, as the list of its own properties in enumeration
  order. \<open>calls\<close> is not a field of the class: it is the record of every listener
  invocation the instance has made so far, oldest first.
\<close>

record DynamicParameter =
  initial :: "(key \<times> IParameter) list"
  stack :: "(key \<times> IParameter) list"
  signal :: "(key \<times> callable list) list"
  calls :: "invocation list"

text \<open>\<^verbatim>\<open>Object.entries(o)\<close> lists the string-keyed own properties; symbol keys are skipped.\<close>

definition Object_entries :: "(key \<times> 'a) list \<Rightarrow> (key \<times> 'a) list" where
  "Object_entries obj = filter (\<lambda>(k, v). is_string_key k) obj"

text \<open>
  \<^verbatim>\<open>const data = this.stack.get(key)
  return data ? ((data?.value as any) || data.defaultValue || undefined) : undefined;\<close>
\<close>

definition DynamicParameter_get :: "DynamicParameter \<Rightarrow> key \<Rightarrow> jsval" where
  "DynamicParameter_get s k =
     (case map_of (stack s) k of
        None \<Rightarrow> Undefined
      | Some data \<Rightarrow> js_or (js_or (value_p data) (defaultValue data)) Undefined)"

definition DynamicParameter_has :: "DynamicParameter \<Rightarrow> key \<Rightarrow> bool" where
  "DynamicParameter_has s k = (case map_of (stack s) k of None \<Rightarrow> False | Some data \<Rightarrow> True)"

text \<open>
  \<^verbatim>\<open>const set = this.signal.get(key) || new Set();
  set.add(callback); this.signal.set(key, set);\<close>
\<close>

definition DynamicParameter_listen :: "DynamicParameter \<Rightarrow> key \<Rightarrow> callable \<Rightarrow> DynamicParameter" where
  "DynamicParameter_listen s k cb =
     s\<lparr>signal :=
         AList.update k
           (Set_add cb (case map_of (signal s) k of None \<Rightarrow> [] | Some cbs \<Rightarrow> cbs))
           (signal s)\<rparr>"

text \<open>
  \<^verbatim>\<open>for (const [index, set] of [...this.signal.entries()])
      if (key == index)
          for (const callable of set)
              callable(this.get(key));\<close>
  \<open>dispatched s k\<close> is the sequence of calls this loop makes.
\<close>

definition dispatched :: "DynamicParameter \<Rightarrow> key \<Rightarrow> invocation list" where
  "dispatched s k =
     concat (map (\<lambda>(index, cbs).
                    if k = index then map (\<lambda>c. (c, DynamicParameter_get s k)) cbs else [])
                 (signal s))"

definition DynamicParameter_dispatch :: "DynamicParameter \<Rightarrow> key \<Rightarrow> DynamicParameter" where
  "DynamicParameter_dispatch s k = s\<lparr>calls := calls s @ dispatched s k\<rparr>"

text \<open>
  \<^verbatim>\<open>this.stack.set(key, {value, defaultValue: defaultValue || value, callback});
  if (callback) this.listen(key, callback);
  this.dispatch(key);\<close>
\<close>

definition DynamicParameter_set ::
  "DynamicParameter \<Rightarrow> key \<Rightarrow> jsval \<Rightarrow> jsval \<Rightarrow> callable option \<Rightarrow> DynamicParameter" where
  "DynamicParameter_set s k v dv cb =
     (let s1 = s\<lparr>stack :=
                   AList.update k
                     \<lparr>value_p = v, defaultValue = js_or dv v, callback = cb\<rparr> (stack s)\<rparr>;
          s2 = (case cb of None \<Rightarrow> s1 | Some c \<Rightarrow> DynamicParameter_listen s1 k c)
      in DynamicParameter_dispatch s2 k)"

definition DynamicParameter_update :: "DynamicParameter \<Rightarrow> key \<Rightarrow> jsval \<Rightarrow> DynamicParameter" where
  "DynamicParameter_update s k v =
     (if DynamicParameter_has s k then DynamicParameter_set s k v Undefined None else s)"

definition DynamicParameter_remove :: "DynamicParameter \<Rightarrow> key \<Rightarrow> DynamicParameter" where
  "DynamicParameter_remove s k = s\<lparr>stack := AList.delete k (stack s)\<rparr>"

definition DynamicParameter_clear :: "DynamicParameter \<Rightarrow> DynamicParameter" where
  "DynamicParameter_clear s = s\<lparr>stack := []\<rparr>"

text \<open>
  \<^verbatim>\<open>for (const [key, data] of Object.entries(this.initial))
      this.set(key, data.value, data.defaultValue, data.callback);\<close>
\<close>

definition initialize_step :: "key \<times> IParameter \<Rightarrow> DynamicParameter \<Rightarrow> DynamicParameter" where
  "initialize_step e s =
     DynamicParameter_set s (fst e) (value_p (snd e)) (defaultValue (snd e)) (callback (snd e))"

definition DynamicParameter_initialize :: "DynamicParameter \<Rightarrow> DynamicParameter" where
  "DynamicParameter_initialize s = fold initialize_step (Object_entries (initial s)) s"

definition DynamicParameter_reset :: "DynamicParameter \<Rightarrow> DynamicParameter" where
  "DynamicParameter_reset s = DynamicParameter_initialize (DynamicParameter_clear s)"

text \<open>The constructor: \<^verbatim>\<open>this.stack = new Map(); this.initialize();\<close> on a fresh instance.\<close>

definition DynamicParameter_new :: "(key \<times> IParameter) list \<Rightarrow> DynamicParameter" where
  "DynamicParameter_new init =
     DynamicParameter_initialize \<lparr>initial = init, stack = [], signal = [], calls = []\<rparr>"

text \<open>
  The \<^verbatim>\<open>entries\<close> getter fills a fresh plain object:
  \<^verbatim>\<open>const accumulate = {};
  for (const [key, value] of this.stack) accumulate[key] = value.value;\<close>
  A plain object is the map of its own properties together with its prototype, which for
  \<^verbatim>\<open>{}\<close> is \<^verbatim>\<open>Object.prototype\<close>. The assignments run in strict code (a class body), so
  an assignment that fails raises \<^verbatim>\<open>TypeError\<close>.
\<close>

datatype error = TypeError

datatype prototype = Object_prototype | Null_prototype | Object_ref nat

record plain_object =
  own :: "key \<rightharpoonup> jsval"
  proto :: prototype

definition empty_object :: plain_object where
  "empty_object = \<lparr>own = Map.empty, proto = Object_prototype\<rparr>"

text \<open>
  What an assignment \<^verbatim>\<open>o[k] = v\<close> finds for \<open>k\<close> along the prototype chain that starts
  at a given object, when \<open>o\<close> has no own property \<open>k\<close>: nothing or a writable data
  property (the assignment creates an own property of \<open>o\<close>), a setter (it is called and
  \<open>o\<close> gets no own property; the setter is caller code and, like a listener, is taken to
  leave the store and \<open>o\<close> alone), or a property that cannot be written (read-only data,
  or an accessor without setter), which makes the assignment fail. The objects that
  callers store are their own, so this is a parameter of the getter.
\<close>

datatype inherited = Creates_own | Calls_setter | Rejects

type_synonym heap = "nat \<Rightarrow> key \<Rightarrow> inherited"

text \<open>
  \<^verbatim>\<open>accumulate[key] = v\<close>. An own property, always a writable data property here, is
  overwritten. Otherwise the prototype decides. \<^verbatim>\<open>Object.prototype\<close> has one accessor,
  under the string key \<^verbatim>\<open>__proto__\<close>: its setter makes an object or \<^verbatim>\<open>null\<close> the new
  prototype of \<open>accumulate\<close>, ignores every other value, and creates no own property;
  every other key yields an own property. With no prototype every key yields an own
  property. With an object as prototype the heap decides. (The keys of a \<^verbatim>\<open>Map\<close> are
  distinct, so after the prototype has been replaced no second \<^verbatim>\<open>__proto__\<close> arrives.)
\<close>

definition Object_assign :: "heap \<Rightarrow> key \<Rightarrow> jsval \<Rightarrow> plain_object \<Rightarrow> error + plain_object" where
  "Object_assign h k v obj =
     (if own obj k \<noteq> None then Inr (obj\<lparr>own := (own obj)(k \<mapsto> v)\<rparr>)
      else case proto obj of
        Object_prototype \<Rightarrow>
          (if k = KStr ''__proto__'' then
             (case v of
                JObj r \<Rightarrow> Inr (obj\<lparr>proto := Object_ref r\<rparr>)
              | Null \<Rightarrow> Inr (obj\<lparr>proto := Null_prototype\<rparr>)
              | _ \<Rightarrow> Inr obj)
           else Inr (obj\<lparr>own := (own obj)(k \<mapsto> v)\<rparr>))
      | Null_prototype \<Rightarrow> Inr (obj\<lparr>own := (own obj)(k \<mapsto> v)\<rparr>)
      | Object_ref r \<Rightarrow>
          (case h r k of
             Creates_own \<Rightarrow> Inr (obj\<lparr>own := (own obj)(k \<mapsto> v)\<rparr>)
           | Calls_setter \<Rightarrow> Inr obj
           | Rejects \<Rightarrow> Inl TypeError))"

fun entries_loop :: "heap \<Rightarrow> (key \<times> IParameter) list \<Rightarrow> plain_object \<Rightarrow> error + plain_object" where
  "entries_loop h [] accumulate = Inr accumulate"
| "entries_loop h ((k, data) # rest) accumulate =
     (case Object_assign h k (value_p data) accumulate of
        Inl e \<Rightarrow> Inl e
      | Inr accumulate' \<Rightarrow> entries_loop h rest accumulate')"

definition DynamicParameter_entries :: "heap \<Rightarrow> DynamicParameter \<Rightarrow> error + plain_object" where
  "DynamicParameter_entries h s = entries_loop h (stack s) empty_object"

text \<open>
  \<^verbatim>\<open>clone()\<close> evaluates \<^verbatim>\<open>new (this.constructor)({...this.entries})\<close>. The spread
  \<^verbatim>\<open>{...o}\<close> is a fresh plain object with the own properties of \<open>o\<close> (all enumerable
  here), defined on it one by one; \<open>DynamicParameter_clone_argument\<close> is the object that
  \<^verbatim>\<open>clone()\<close> hands to the constructor.
\<close>

definition spread :: "plain_object \<Rightarrow> plain_object" where
  "spread obj = \<lparr>own = own obj, proto = Object_prototype\<rparr>"

definition DynamicParameter_clone_argument ::
  "heap \<Rightarrow> DynamicParameter \<Rightarrow> error + plain_object" where
  "DynamicParameter_clone_argument h s =
     (case DynamicParameter_entries h s of Inl e \<Rightarrow> Inl e | Inr obj \<Rightarrow> Inr (spread obj))"

text \<open>Reading the own property \<open>k\<close> of the object a getter returned, if it returned.\<close>

definition own_property :: "error + plain_object \<Rightarrow> key \<Rightarrow> error + jsval option" where
  "own_property r k = (case r of Inl e \<Rightarrow> Inl e | Inr obj \<Rightarrow> Inr (own obj k))"

text \<open>The listeners registered for a key: the set \<^verbatim>\<open>this.signal.get(key)\<close>, if any.\<close>

definition listeners :: "DynamicParameter \<Rightarrow> key \<Rightarrow> callable list" where
  "listeners s k = (case map_of (signal s) k of None \<Rightarrow> [] | Some cbs \<Rightarrow> cbs)"

text \<open>The calls made on the way from state \<open>s\<close> to a later state \<open>s'\<close>.\<close>

definition invoked_since :: "DynamicParameter \<Rightarrow> DynamicParameter \<Rightarrow> invocation list" where
  "invoked_since s s' = drop (length (calls s)) (calls s')"

text \<open>
  What the \<^verbatim>\<open>Map\<close>s and \<^verbatim>\<open>Set\<close>s of an instance guarantee by construction: no
  key twice in \<open>stack\<close> or in \<open>signal\<close>, and no listener twice under one key.
\<close>

definition store_ok :: "DynamicParameter \<Rightarrow> bool" where
  "store_ok s =
     (distinct (map fst (stack s)) \<and> distinct (map fst (signal s))
      \<and> list_all (\<lambda>e. distinct (snd e)) (signal s))"

text \<open>The public methods as data, to speak of arbitrary sequences of calls.\<close>

datatype operation =
    Call_set key jsval jsval "callable option"
  | Call_update key jsval
  | Call_remove key
  | Call_clear
  | Call_reset
  | Call_listen key callable
  | Call_dispatch key

fun perform :: "operation \<Rightarrow> DynamicParameter \<Rightarrow> DynamicParameter" where
  "perform (Call_set k v dv cb) s = DynamicParameter_set s k v dv cb"
| "perform (Call_update k v) s = DynamicParameter_update s k v"
| "perform (Call_remove k) s = DynamicParameter_remove s k"
| "perform Call_clear s = DynamicParameter_clear s"
| "perform Call_reset s = DynamicParameter_reset s"
| "perform (Call_listen k cb) s = DynamicParameter_listen s k cb"
| "perform (Call_dispatch k) s = DynamicParameter_dispatch s k"

definition run :: "operation list \<Rightarrow> DynamicParameter \<Rightarrow> DynamicParameter" where
  "run ops s = fold perform ops s"

text \<open>The calls that write to \<open>stack\<close> and bring no listener: set without a callback,
  update, remove and clear.\<close>

fun is_plain_write :: "operation \<Rightarrow> bool" where
  "is_plain_write (Call_set k v dv cb) = (cb = None)"
| "is_plain_write (Call_update k v) = True"
| "is_plain_write (Call_remove k) = True"
| "is_plain_write Call_clear = True"
| "is_plain_write Call_reset = False"
| "is_plain_write (Call_listen k cb) = False"
| "is_plain_write (Call_dispatch k) = False"

section \<open>StaticParameter\<close>

text \<open>
  \<open>static_initial\<close> is the array handed to the constructor, \<open>static_stack\<close> the
  \<^verbatim>\<open>Set\<close> of the values held, in insertion order.
\<close>

record StaticParameter =
  static_initial :: "jsval list"
  static_stack :: "jsval list"

definition StaticParameter_add :: "StaticParameter \<Rightarrow> jsval \<Rightarrow> StaticParameter" where
  "StaticParameter_add s v = s\<lparr>static_stack := Set_add v (static_stack s)\<rparr>"

text \<open>\<^verbatim>\<open>for (const value of this.initial) this.add(value);\<close>\<close>

definition StaticParameter_initialize :: "StaticParameter \<Rightarrow> StaticParameter" where
  "StaticParameter_initialize s = fold (\<lambda>v s'. StaticParameter_add s' v) (static_initial s) s"

definition StaticParameter_new :: "jsval list \<Rightarrow> StaticParameter" where
  "StaticParameter_new init =
     StaticParameter_initialize \<lparr>static_initial = init, static_stack = []\<rparr>"

definition StaticParameter_entries :: "StaticParameter \<Rightarrow> jsval list" where
  "StaticParameter_entries s = static_stack s"

text \<open>
  \<^verbatim>\<open>return [...this.stack.values()][0] || undefined;\<close>
  Index 0 of an empty array reads \<^verbatim>\<open>undefined\<close>.
\<close>

definition StaticParameter_value :: "StaticParameter \<Rightarrow> jsval" where
  "StaticParameter_value s =
     js_or (case StaticParameter_entries s of [] \<Rightarrow> Undefined | x # xs \<Rightarrow> x) Undefined"

definition StaticParameter_has :: "StaticParameter \<Rightarrow> jsval \<Rightarrow> bool" where
  "StaticParameter_has s v = (v \<in> set (static_stack s))"

definition StaticParameter_remove :: "StaticParameter \<Rightarrow> jsval \<Rightarrow> StaticParameter" where
  "StaticParameter_remove s v = s\<lparr>static_stack := removeAll v (static_stack s)\<rparr>"

definition StaticParameter_clear :: "StaticParameter \<Rightarrow> StaticParameter" where
  "StaticParameter_clear s = s\<lparr>static_stack := []\<rparr>"

definition StaticParameter_reset :: "StaticParameter \<Rightarrow> StaticParameter" where
  "StaticParameter_reset s = StaticParameter_initialize (StaticParameter_clear s)"

section \<open>Example instances\<close>

text \<open>
  An initial definition with an explicit default for one key and none for the other:
  \<^verbatim>\<open>{theme: {value: "light", defaultValue: "light"}, page: {value: 1}}\<close>.
\<close>

definition example_initial :: "(key \<times> IParameter) list" where
  "example_initial =
     [(KStr ''theme'',
        \<lparr>value_p = JStr ''light'', defaultValue = JStr ''light'', callback = None\<rparr>),
      (KStr ''page'', \<lparr>value_p = JNum 1, defaultValue = Undefined, callback = None\<rparr>)]"

definition example_store :: DynamicParameter where
  "example_store = DynamicParameter_new example_initial"

text \<open>The store after \<^verbatim>\<open>new DynamicParameter({}).set("page", 0)\<close>.\<close>

definition page_zero_store :: DynamicParameter where
  "page_zero_store =
     DynamicParameter_set (DynamicParameter_new []) (KStr ''page'') (JNum 0) Undefined None"

text \<open>The example store with one listener, number 3, registered for \<^verbatim>\<open>theme\<close>.\<close>

definition listening_store :: DynamicParameter where
  "listening_store = DynamicParameter_listen example_store (KStr ''theme'') 3"

text \<open>A sequence of writes on the example store, none of which brings a listener.\<close>

definition example_writes :: "operation list" where
  "example_writes =
     [Call_set (KStr ''theme'') (JStr ''dark'') Undefined None,
      Call_update (KStr ''page'') (JNum 2),
      Call_remove (KStr ''theme''),
      Call_set (KStr ''extra'') (JNum 0) (JNum 5) None,
      Call_clear,
      Call_update (KStr ''page'') (JNum 9)]"

text \<open>An initial definition with one string key and one symbol key.\<close>

definition symbol_initial :: "(key \<times> IParameter) list" where
  "symbol_initial =
     [(KStr ''page'', \<lparr>value_p = JNum 1, defaultValue = Undefined, callback = None\<rparr>),
      (KSym 0, \<lparr>value_p = JStr ''hidden'', defaultValue = Undefined, callback = Some 1\<rparr>)]"

text \<open>
  Two heaps: one in which no stored object stands in the way of an assignment, and one
  in which object 0 has a read-only property \<^verbatim>\<open>page\<close>, as
  \<^verbatim>\<open>Object.freeze({page: 1})\<close> has.
\<close>

definition ordinary_heap :: heap where
  "ordinary_heap = (\<lambda>r k. Creates_own)"

definition frozen_page_heap :: heap where
  "frozen_page_heap = (\<lambda>r k. if r = 0 \<and> k = KStr ''page'' then Rejects else Creates_own)"

text \<open>The store after \<^verbatim>\<open>new DynamicParameter({}).set("__proto__", 1)\<close>.\<close>

definition proto_store :: DynamicParameter where
  "proto_store =
     DynamicParameter_set (DynamicParameter_new []) (KStr ''__proto__'') (JNum 1) Undefined None"

text \<open>
  The store after \<^verbatim>\<open>new DynamicParameter({}).set("__proto__", o).set("page", 5)\<close>, where
  \<open>o\<close> is object 0.
\<close>

definition frozen_proto_store :: DynamicParameter where
  "frozen_proto_store =
     DynamicParameter_set
       (DynamicParameter_set (DynamicParameter_new []) (KStr ''__proto__'') (JObj 0) Undefined None)
       (KStr ''page'') (JNum 5) Undefined None"

section \<open>Reading: get and has\<close>

lemma get_present:
  "map_of (stack s) k = Some d \<Longrightarrow>
   DynamicParameter_get s k =
     (if truthy (value_p d) then value_p d
      else if truthy (defaultValue d) then defaultValue d else Undefined)"
  by (simp add: DynamicParameter_get_def js_or_def)

lemma get_absent: "map_of (stack s) k = None \<Longrightarrow> DynamicParameter_get s k = Undefined"
  by (simp add: DynamicParameter_get_def)

lemma has_iff: "DynamicParameter_has s k \<longleftrightarrow> k \<in> fst ` set (stack s)"
proof (cases "map_of (stack s) k")
  case None
  then have "k \<notin> fst ` set (stack s)" by (simp add: map_of_eq_None_iff)
  with None show ?thesis by (simp add: DynamicParameter_has_def)
next
  case (Some d)
  then have "k \<in> fst ` set (stack s)"
    using map_of_eq_None_iff [of "stack s" k] by simp
  with Some show ?thesis by (simp add: DynamicParameter_has_def)
qed

lemmas store_defs =
  DynamicParameter_new_def DynamicParameter_initialize_def initialize_step_def
  DynamicParameter_set_def DynamicParameter_dispatch_def DynamicParameter_listen_def
  DynamicParameter_update_def DynamicParameter_remove_def DynamicParameter_clear_def
  DynamicParameter_reset_def DynamicParameter_get_def DynamicParameter_has_def
  Object_entries_def dispatched_def js_or_def Set_add_def listeners_def invoked_since_def

lemma example_stack:
  "stack example_store =
     [(KStr ''theme'',
        \<lparr>value_p = JStr ''light'', defaultValue = JStr ''light'', callback = None\<rparr>),
      (KStr ''page'', \<lparr>value_p = JNum 1, defaultValue = JNum 1, callback = None\<rparr>)]"
  by (simp add: example_store_def example_initial_def store_defs)

text \<open>
  C1. \<open>get(k)\<close> returns the stored value when it is truthy, otherwise the stored
  \<open>defaultValue\<close> when that is truthy, otherwise \<open>undefined\<close>; for a key that is not in
  \<open>stack\<close>, \<open>get(k)\<close> is \<open>undefined\<close> and \<open>has(k)\<close> is false.
\<close>

theorem get_resolves_value_then_default:
  "(\<forall>d. map_of (stack s) k = Some d \<longrightarrow>
        DynamicParameter_get s k =
          (if truthy (value_p d) then value_p d
           else if truthy (defaultValue d) then defaultValue d else Undefined))
   \<and> (k \<notin> fst ` set (stack s) \<longrightarrow>
        DynamicParameter_get s k = Undefined \<and> \<not> DynamicParameter_has s k)"
proof (intro conjI allI impI)
  fix d assume "map_of (stack s) k = Some d"
  then show "DynamicParameter_get s k =
          (if truthy (value_p d) then value_p d
           else if truthy (defaultValue d) then defaultValue d else Undefined)"
    by (rule get_present)
next
  assume "k \<notin> fst ` set (stack s)"
  then have "map_of (stack s) k = None" by (simp add: map_of_eq_None_iff)
  then show "DynamicParameter_get s k = Undefined" by (rule get_absent)
next
  assume "k \<notin> fst ` set (stack s)"
  then show "\<not> DynamicParameter_has s k" by (simp add: has_iff)
qed

theorem get_resolves_value_then_default_witness:
  "map_of (stack example_store) (KStr ''page'') =
     Some \<lparr>value_p = JNum 1, defaultValue = JNum 1, callback = None\<rparr>
   \<and> DynamicParameter_get example_store (KStr ''page'') = JNum 1
   \<and> KStr ''missing'' \<notin> fst ` set (stack example_store)
   \<and> DynamicParameter_get example_store (KStr ''missing'') = Undefined
   \<and> \<not> DynamicParameter_has example_store (KStr ''missing'')"
proof -
  have p: "map_of (stack example_store) (KStr ''page'') =
     Some \<lparr>value_p = JNum 1, defaultValue = JNum 1, callback = None\<rparr>"
    by (simp add: example_stack)
  have m: "KStr ''missing'' \<notin> fst ` set (stack example_store)"
    by (simp add: example_stack)
  from get_resolves_value_then_default [of example_store "KStr ''page''"] p
  have "DynamicParameter_get example_store (KStr ''page'') = JNum 1" by simp
  moreover from get_resolves_value_then_default [of example_store "KStr ''missing''"] m
  have "DynamicParameter_get example_store (KStr ''missing'') = Undefined
        \<and> \<not> DynamicParameter_has example_store (KStr ''missing'')" by blast
  ultimately show ?thesis using p m by blast
qed

section \<open>Writing: set and update\<close>

lemma stack_set:
  "stack (DynamicParameter_set s k v dv cb) =
     AList.update k \<lparr>value_p = v, defaultValue = js_or dv v, callback = cb\<rparr> (stack s)"
  by (simp add: DynamicParameter_set_def DynamicParameter_dispatch_def
      DynamicParameter_listen_def Let_def split: option.split)

lemma initial_set: "initial (DynamicParameter_set s k v dv cb) = initial s"
  by (simp add: DynamicParameter_set_def DynamicParameter_dispatch_def
      DynamicParameter_listen_def Let_def split: option.split)

lemma signal_set:
  "signal (DynamicParameter_set s k v dv cb) =
     (case cb of None \<Rightarrow> signal s
      | Some c \<Rightarrow> AList.update k (Set_add c (listeners s k)) (signal s))"
  by (simp add: DynamicParameter_set_def DynamicParameter_dispatch_def
      DynamicParameter_listen_def listeners_def Let_def split: option.split)

lemma dispatched_cong:
  assumes "signal s = signal s'" and "stack s = stack s'"
  shows "dispatched s k = dispatched s' k"
proof -
  have g: "DynamicParameter_get s k = DynamicParameter_get s' k"
    by (simp add: DynamicParameter_get_def assms(2))
  show ?thesis
    unfolding dispatched_def assms(1) g ..
qed

lemma calls_set:
  "calls (DynamicParameter_set s k v dv cb) =
     calls s @ dispatched (DynamicParameter_set s k v dv cb) k"
proof -
  let ?s1 = "s\<lparr>stack := AList.update k
                     \<lparr>value_p = v, defaultValue = js_or dv v, callback = cb\<rparr> (stack s)\<rparr>"
  let ?s2 = "case cb of None \<Rightarrow> ?s1 | Some c \<Rightarrow> DynamicParameter_listen ?s1 k c"
  have eq: "DynamicParameter_set s k v dv cb = DynamicParameter_dispatch ?s2 k"
    by (simp add: DynamicParameter_set_def Let_def)
  have c: "calls ?s2 = calls s"
    by (simp add: DynamicParameter_listen_def split: option.split)
  have "dispatched (DynamicParameter_dispatch ?s2 k) k = dispatched ?s2 k"
    by (rule dispatched_cong) (simp_all add: DynamicParameter_dispatch_def)
  then show ?thesis
    unfolding eq by (simp add: DynamicParameter_dispatch_def c)
qed

text \<open>
  C2. A \<open>set(k, v)\<close> whose \<open>defaultValue\<close> argument is not truthy (in particular one that
  omits it) stores \<open>v\<close> itself as the \<open>defaultValue\<close>; so after \<open>set("page", 0)\<close> with no
  explicit default, \<open>get("page")\<close> is \<open>undefined\<close>, not \<open>0\<close>.
\<close>

theorem set_without_default_uses_value:
  "(\<not> truthy dv \<longrightarrow>
      map_of (stack (DynamicParameter_set s k v dv cb)) k =
        Some \<lparr>value_p = v, defaultValue = v, callback = cb\<rparr>)
   \<and> (\<not> truthy dv \<longrightarrow> \<not> truthy v \<longrightarrow>
        DynamicParameter_get (DynamicParameter_set s k v dv cb) k = Undefined)
   \<and> DynamicParameter_get
        (DynamicParameter_set s (KStr ''page'') (JNum 0) Undefined None) (KStr ''page'')
      = Undefined"
  by (simp add: stack_set update_conv' DynamicParameter_get_def js_or_def)

theorem set_without_default_uses_value_witness:
  "\<not> truthy Undefined \<and> \<not> truthy (JNum 0)
   \<and> map_of (stack (DynamicParameter_set example_store
         (KStr ''page'') (JNum 0) Undefined None)) (KStr ''page'')
       = Some \<lparr>value_p = JNum 0, defaultValue = JNum 0, callback = None\<rparr>
   \<and> DynamicParameter_get (DynamicParameter_set example_store
         (KStr ''page'') (JNum 0) Undefined None) (KStr ''page'') = Undefined"
  using set_without_default_uses_value
    [of Undefined example_store "KStr ''page''" "JNum 0" None]
  by simp

text \<open>
  C5. For a key with \<open>has(k)\<close> false, \<open>update(k, v)\<close> does nothing: the instance is left
  as it was (so \<open>has(k)\<close> stays false), and no listener is called. The model has no error
  outcome for any method, as the code raises none.
\<close>

theorem update_missing_key_noop:
  "\<not> DynamicParameter_has s k \<Longrightarrow>
     DynamicParameter_update s k v = s
     \<and> \<not> DynamicParameter_has (DynamicParameter_update s k v) k
     \<and> invoked_since s (DynamicParameter_update s k v) = []"
  by (simp add: DynamicParameter_update_def invoked_since_def)

theorem update_missing_key_noop_witness:
  "\<not> DynamicParameter_has example_store (KStr ''missing'')
   \<and> DynamicParameter_update example_store (KStr ''missing'') (JStr ''x'') = example_store
   \<and> \<not> DynamicParameter_has
         (DynamicParameter_update example_store (KStr ''missing'') (JStr ''x''))
         (KStr ''missing'')
   \<and> invoked_since example_store
        (DynamicParameter_update example_store (KStr ''missing'') (JStr ''x'')) = []"
proof -
  have h: "\<not> DynamicParameter_has example_store (KStr ''missing'')"
    by (simp add: DynamicParameter_has_def example_stack)
  from update_missing_key_noop [OF h, of "JStr ''x''"] h show ?thesis by blast
qed

text \<open>
  C9. In every state of the store (so in every reachable one) and for every key,
  \<open>get\<close> returns a truthy value or \<open>undefined\<close>: \<open>0\<close>, the empty string, \<open>false\<close>,
  \<open>null\<close> and \<open>NaN\<close> are never its result.
\<close>

theorem get_never_falsy:
  "(truthy (DynamicParameter_get s k) \<or> DynamicParameter_get s k = Undefined)
   \<and> DynamicParameter_get s k \<noteq> JNum 0
   \<and> DynamicParameter_get s k \<noteq> JStr []
   \<and> DynamicParameter_get s k \<noteq> JBool False
   \<and> DynamicParameter_get s k \<noteq> Null
   \<and> DynamicParameter_get s k \<noteq> JNaN"
  by (auto simp: DynamicParameter_get_def js_or_def split: option.split)

theorem get_never_falsy_witness:
  "DynamicParameter_get page_zero_store (KStr ''page'') = Undefined
   \<and> DynamicParameter_get page_zero_store (KStr ''page'') \<noteq> JNum 0"
  using get_never_falsy [of page_zero_store "KStr ''page''"]
  by (simp add: page_zero_store_def stack_set update_conv' DynamicParameter_get_def js_or_def)

section \<open>The listener registry\<close>

lemma example_signal: "signal example_store = []"
  by (simp add: example_store_def example_initial_def store_defs)

lemma example_listeners: "listeners example_store k = []"
  by (simp add: listeners_def example_signal)

lemma example_calls: "calls example_store = []"
  by (simp add: example_store_def example_initial_def store_defs)


lemma Set_add_set: "set (Set_add x xs) = insert x (set xs)"
  by (auto simp: Set_add_def)

lemma Set_add_distinct: "distinct xs \<Longrightarrow> distinct (Set_add x xs)"
  by (simp add: Set_add_def)

lemma listeners_listen:
  "listeners (DynamicParameter_listen s k c) k' =
     (if k' = k then Set_add c (listeners s k) else listeners s k')"
  by (simp add: listeners_def DynamicParameter_listen_def update_conv')

lemma listeners_set:
  "listeners (DynamicParameter_set s k v dv cb) k' =
     (case cb of None \<Rightarrow> listeners s k'
      | Some c \<Rightarrow> if k' = k then Set_add c (listeners s k) else listeners s k')"
  by (simp add: listeners_def signal_set update_conv' split: option.split)

lemma listeners_set_mono:
  "set (listeners s k') \<subseteq> set (listeners (DynamicParameter_set s k v dv cb) k')"
  by (auto simp: listeners_set Set_add_set split: option.split)

lemma listeners_fold_initialize_mono:
  "set (listeners s k') \<subseteq> set (listeners (fold initialize_step es s) k')"
proof (induction es arbitrary: s)
  case Nil
  show ?case by simp
next
  case (Cons e es)
  have "set (listeners s k') \<subseteq> set (listeners (initialize_step e s) k')"
    unfolding initialize_step_def by (rule listeners_set_mono)
  also have "\<dots> \<subseteq> set (listeners (fold initialize_step es (initialize_step e s)) k')"
    by (rule Cons.IH)
  finally show ?case by simp
qed

lemma listeners_reset_mono:
  "set (listeners s k') \<subseteq> set (listeners (DynamicParameter_reset s) k')"
proof -
  have "listeners (DynamicParameter_clear s) k' = listeners s k'"
    by (simp add: listeners_def DynamicParameter_clear_def)
  then show ?thesis
    unfolding DynamicParameter_reset_def DynamicParameter_initialize_def
    using listeners_fold_initialize_mono [of "DynamicParameter_clear s" k'] 
    by (simp add: DynamicParameter_clear_def)
qed

lemma listeners_perform_mono:
  "set (listeners s k') \<subseteq> set (listeners (perform op s) k')"
proof (cases op)
  case (Call_set k v dv cb)
  then show ?thesis by (simp add: listeners_set_mono)
next
  case (Call_update k v)
  then show ?thesis by (simp add: DynamicParameter_update_def listeners_set_mono)
next
  case (Call_remove k)
  then show ?thesis by (simp add: DynamicParameter_remove_def listeners_def)
next
  case Call_clear
  then show ?thesis by (simp add: DynamicParameter_clear_def listeners_def)
next
  case Call_reset
  then show ?thesis by (simp add: listeners_reset_mono)
next
  case (Call_listen k c)
  then show ?thesis by (auto simp: listeners_listen Set_add_set)
next
  case (Call_dispatch k)
  then show ?thesis by (simp add: DynamicParameter_dispatch_def listeners_def)
qed

lemma listeners_run_mono:
  "set (listeners s k') \<subseteq> set (listeners (run ops s) k')"
proof (induction ops arbitrary: s)
  case Nil
  show ?case by (simp add: run_def)
next
  case (Cons op ops)
  have "set (listeners s k') \<subseteq> set (listeners (perform op s) k')"
    by (rule listeners_perform_mono)
  also have "\<dots> \<subseteq> set (listeners (run ops (perform op s)) k')"
    by (rule Cons.IH)
  finally show ?case by (simp add: run_def)
qed

lemma listener_is_dispatched:
  assumes "c \<in> set (listeners s k)"
  shows "(c, DynamicParameter_get s k) \<in> set (dispatched s k)"
proof -
  from assms obtain cbs where m: "map_of (signal s) k = Some cbs" and c: "c \<in> set cbs"
    by (cases "map_of (signal s) k") (auto simp: listeners_def)
  from m have "(k, cbs) \<in> set (signal s)" by (rule map_of_SomeD)
  with c show ?thesis
    unfolding dispatched_def by (auto intro!: bexI [of _ "(k, cbs)"])
qed

lemma invoked_since_set:
  "invoked_since s (DynamicParameter_set s k v dv cb) =
     dispatched (DynamicParameter_set s k v dv cb) k"
  by (simp add: invoked_since_def calls_set)

lemma matching_entries:
  "distinct (map fst xs) \<Longrightarrow>
   concat (map (\<lambda>(index, cbs). if k = index then f cbs else []) xs) =
     (case map_of xs k of None \<Rightarrow> [] | Some cbs \<Rightarrow> f cbs)"
proof (induction xs)
  case Nil
  show ?case by simp
next
  case (Cons x xs)
  obtain i cbs where x: "x = (i, cbs)" by (cases x)
  show ?case
  proof (cases "k = i")
    case True
    with Cons.prems x have "k \<notin> fst ` set xs" by simp
    then have "map_of xs k = None" by (simp add: map_of_eq_None_iff)
    with Cons x True show ?thesis by simp
  next
    case False
    with Cons x show ?thesis by simp
  qed
qed

lemma dispatched_listeners:
  "store_ok s \<Longrightarrow>
   dispatched s k = map (\<lambda>c. (c, DynamicParameter_get s k)) (listeners s k)"
  unfolding dispatched_def listeners_def store_ok_def
  by (simp add: matching_entries [where f = "map (\<lambda>c. (c, DynamicParameter_get s k))"]
      split: option.split)

lemma listeners_distinct: "store_ok s \<Longrightarrow> distinct (listeners s k)"
proof -
  assume ok: "store_ok s"
  show ?thesis
  proof (cases "map_of (signal s) k")
    case None
    then show ?thesis by (simp add: listeners_def)
  next
    case (Some cbs)
    then have "(k, cbs) \<in> set (signal s)" by (rule map_of_SomeD)
    with ok have "distinct cbs" by (auto simp: store_ok_def list_all_iff)
    with Some show ?thesis by (simp add: listeners_def)
  qed
qed

lemma list_all_update:
  "list_all P xs \<Longrightarrow> P (k, v) \<Longrightarrow> list_all P (AList.update k v xs)"
  by (induction xs) auto

lemma store_ok_listen: "store_ok s \<Longrightarrow> store_ok (DynamicParameter_listen s k c)"
proof -
  assume ok: "store_ok s"
  then have "distinct (Set_add c (listeners s k))"
    by (simp add: listeners_distinct Set_add_distinct)
  with ok show ?thesis
    by (simp add: store_ok_def DynamicParameter_listen_def distinct_update list_all_update
        listeners_def)
qed

lemma store_ok_dispatch: "store_ok s \<Longrightarrow> store_ok (DynamicParameter_dispatch s k)"
  by (simp add: store_ok_def DynamicParameter_dispatch_def)

lemma store_ok_set: "store_ok s \<Longrightarrow> store_ok (DynamicParameter_set s k v dv cb)"
proof -
  assume ok: "store_ok s"
  let ?s1 = "s\<lparr>stack := AList.update k
                     \<lparr>value_p = v, defaultValue = js_or dv v, callback = cb\<rparr> (stack s)\<rparr>"
  from ok have ok1: "store_ok ?s1" by (simp add: store_ok_def distinct_update)
  have "store_ok (case cb of None \<Rightarrow> ?s1 | Some c \<Rightarrow> DynamicParameter_listen ?s1 k c)"
  proof (cases cb)
    case None
    with ok1 show ?thesis by simp
  next
    case (Some c)
    from ok1 have "store_ok (DynamicParameter_listen ?s1 k c)" by (rule store_ok_listen)
    with Some show ?thesis by simp
  qed
  then show ?thesis
    unfolding DynamicParameter_set_def Let_def by (rule store_ok_dispatch)
qed

lemma store_ok_fold_initialize: "store_ok s \<Longrightarrow> store_ok (fold initialize_step es s)"
  by (induction es arbitrary: s) (simp_all add: initialize_step_def store_ok_set)

lemma store_ok_clear: "store_ok s \<Longrightarrow> store_ok (DynamicParameter_clear s)"
  by (simp add: store_ok_def DynamicParameter_clear_def)

lemma store_ok_reset: "store_ok s \<Longrightarrow> store_ok (DynamicParameter_reset s)"
  unfolding DynamicParameter_reset_def DynamicParameter_initialize_def
  by (intro store_ok_fold_initialize store_ok_clear)

lemma store_ok_new: "store_ok (DynamicParameter_new init)"
  unfolding DynamicParameter_new_def DynamicParameter_initialize_def
  by (rule store_ok_fold_initialize) (simp add: store_ok_def)

lemma store_ok_remove: "store_ok s \<Longrightarrow> store_ok (DynamicParameter_remove s k)"
  by (simp add: store_ok_def DynamicParameter_remove_def distinct_delete)

lemma store_ok_update: "store_ok s \<Longrightarrow> store_ok (DynamicParameter_update s k v)"
  by (simp add: DynamicParameter_update_def store_ok_set)

lemma store_ok_perform: "store_ok s \<Longrightarrow> store_ok (perform op s)"
  by (cases op)
    (simp_all add: store_ok_set store_ok_update store_ok_remove store_ok_clear store_ok_reset
      store_ok_listen store_ok_dispatch)

lemma store_ok_run: "store_ok s \<Longrightarrow> store_ok (run ops s)"
  unfolding run_def by (induction ops arbitrary: s) (simp_all add: store_ok_perform)

text \<open>Every state that calls can reach from a constructed instance is well formed.\<close>

lemma store_ok_reachable: "store_ok (run ops (DynamicParameter_new init))"
  by (intro store_ok_run store_ok_new)

lemma once_among_distinct:
  "distinct xs \<Longrightarrow> c \<in> set xs \<Longrightarrow> filter (\<lambda>e. fst e = c) (map (\<lambda>x. (x, v)) xs) = [(c, v)]"
proof (induction xs)
  case Nil
  then show ?case by simp
next
  case (Cons x xs)
  show ?case
  proof (cases "x = c")
    case True
    with Cons.prems have "c \<notin> set xs" by simp
    then have "filter (\<lambda>e. fst e = c) (map (\<lambda>x. (x, v)) xs) = []"
      by (induction xs) auto
    with True show ?thesis by simp
  next
    case False
    with Cons show ?thesis by simp
  qed
qed

text \<open>
  C3. Every \<open>set(k, ...)\<close> ends by dispatching for \<open>k\<close>: the calls it adds are exactly
  one call of every listener registered for \<open>k\<close> when it returns, in registration order,
  each with the resolved value \<open>get(k)\<close>; a callback handed to this same \<open>set\<close> is among
  those listeners. After \<open>listen(k, l)\<close> then \<open>set(k, v)\<close>, the listener \<open>l\<close> is called
  exactly once, with \<open>get(k)\<close>.
\<close>

theorem set_dispatches_to_listeners:
  assumes "store_ok s"
  shows "calls (DynamicParameter_set s k v dv cb) =
           calls s @ map (\<lambda>c. (c, DynamicParameter_get (DynamicParameter_set s k v dv cb) k))
                        (listeners (DynamicParameter_set s k v dv cb) k)
         \<and> distinct (listeners (DynamicParameter_set s k v dv cb) k)
         \<and> (\<forall>c. cb = Some c \<longrightarrow> c \<in> set (listeners (DynamicParameter_set s k v dv cb) k))
         \<and> filter (\<lambda>e. fst e = l)
             (invoked_since (DynamicParameter_listen s k l)
                (DynamicParameter_set (DynamicParameter_listen s k l) k v dv cb))
           = [(l, DynamicParameter_get
                    (DynamicParameter_set (DynamicParameter_listen s k l) k v dv cb) k)]"
proof (intro conjI allI impI)
  let ?s' = "DynamicParameter_set s k v dv cb"
  have ok': "store_ok ?s'" using assms by (rule store_ok_set)
  show "calls ?s' = calls s @ map (\<lambda>c. (c, DynamicParameter_get ?s' k)) (listeners ?s' k)"
    by (simp add: calls_set dispatched_listeners [OF ok'])
  show "distinct (listeners ?s' k)" using ok' by (rule listeners_distinct)
  show "c \<in> set (listeners ?s' k)" if "cb = Some c" for c
    using that by (simp add: listeners_set Set_add_set)
next
  let ?s1 = "DynamicParameter_listen s k l"
  let ?s2 = "DynamicParameter_set ?s1 k v dv cb"
  have ok2: "store_ok ?s2" using assms by (intro store_ok_set store_ok_listen)
  have "l \<in> set (listeners ?s1 k)" by (simp add: listeners_listen Set_add_set)
  then have l: "l \<in> set (listeners ?s2 k)"
    by (rule subsetD [OF listeners_set_mono])
  have "invoked_since ?s1 ?s2 = map (\<lambda>c. (c, DynamicParameter_get ?s2 k)) (listeners ?s2 k)"
    by (simp add: invoked_since_set dispatched_listeners [OF ok2])
  then show "filter (\<lambda>e. fst e = l) (invoked_since ?s1 ?s2) = [(l, DynamicParameter_get ?s2 k)]"
    using once_among_distinct [OF listeners_distinct [OF ok2] l] by simp
qed

text \<open>
  C4. \<open>remove\<close> and \<open>clear\<close> leave \<open>signal\<close> as it is, and \<open>reset\<close> only adds to it;
  every listener registered for \<open>k\<close> before \<open>remove(k)\<close> is still called, with \<open>get(k)\<close>,
  by a later \<open>set(k, v)\<close>, whatever calls are made in between.
\<close>

theorem listeners_survive_removal:
  "signal (DynamicParameter_remove s k) = signal s
   \<and> signal (DynamicParameter_clear s) = signal s
   \<and> (\<forall>k'. set (listeners s k') \<subseteq> set (listeners (DynamicParameter_reset s) k'))
   \<and> (\<forall>c \<in> set (listeners s k).
        (c, DynamicParameter_get
              (DynamicParameter_set (run ops (DynamicParameter_remove s k)) k v dv cb) k)
        \<in> set (invoked_since (run ops (DynamicParameter_remove s k))
                 (DynamicParameter_set (run ops (DynamicParameter_remove s k)) k v dv cb)))"
proof (intro conjI allI ballI)
  show "signal (DynamicParameter_remove s k) = signal s"
    by (simp add: DynamicParameter_remove_def)
  show "signal (DynamicParameter_clear s) = signal s"
    by (simp add: DynamicParameter_clear_def)
  show "set (listeners s k') \<subseteq> set (listeners (DynamicParameter_reset s) k')" for k'
    by (rule listeners_reset_mono)
next
  fix c assume c: "c \<in> set (listeners s k)"
  let ?s1 = "run ops (DynamicParameter_remove s k)"
  let ?s2 = "DynamicParameter_set ?s1 k v dv cb"
  have "listeners (DynamicParameter_remove s k) k = listeners s k"
    by (simp add: listeners_def DynamicParameter_remove_def)
  with c have "c \<in> set (listeners (DynamicParameter_remove s k) k)" by simp
  then have "c \<in> set (listeners ?s1 k)"
    by (rule subsetD [OF listeners_run_mono])
  then have "c \<in> set (listeners ?s2 k)"
    by (rule subsetD [OF listeners_set_mono])
  then have "(c, DynamicParameter_get ?s2 k) \<in> set (dispatched ?s2 k)"
    by (rule listener_is_dispatched)
  then show "(c, DynamicParameter_get ?s2 k) \<in> set (invoked_since ?s1 ?s2)"
    by (simp add: invoked_since_set)
qed

theorem set_dispatches_to_listeners_witness:
  "store_ok example_store
   \<and> calls (DynamicParameter_set example_store (KStr ''theme'') (JStr ''dark'') Undefined (Some 7))
       = [(7, JStr ''dark'')]
   \<and> 7 \<in> set (listeners
         (DynamicParameter_set example_store (KStr ''theme'') (JStr ''dark'') Undefined (Some 7))
         (KStr ''theme''))
   \<and> filter (\<lambda>e. fst e = 3)
        (invoked_since (DynamicParameter_listen example_store (KStr ''theme'') 3)
           (DynamicParameter_set (DynamicParameter_listen example_store (KStr ''theme'') 3)
              (KStr ''theme'') (JStr ''dark'') Undefined (Some 7)))
       = [(3, JStr ''dark'')]"
proof -
  have ok: "store_ok example_store"
    by (simp add: store_ok_def example_stack example_signal)
  have g: "DynamicParameter_get (DynamicParameter_set s (KStr ''theme'') (JStr ''dark'') Undefined cb)
             (KStr ''theme'') = JStr ''dark''" for s cb
    by (simp add: DynamicParameter_get_def stack_set update_conv' js_or_def)
  have l: "listeners
         (DynamicParameter_set example_store (KStr ''theme'') (JStr ''dark'') Undefined (Some 7))
         (KStr ''theme'') = [7]"
    by (simp add: listeners_set example_listeners Set_add_def)
  from set_dispatches_to_listeners
    [OF ok, of "KStr ''theme''" "JStr ''dark''" Undefined "Some 7" 3]
  show ?thesis
    using ok by (simp add: g l example_calls)
qed

theorem listeners_survive_removal_witness:
  "3 \<in> set (listeners listening_store (KStr ''theme''))
   \<and> signal (DynamicParameter_remove listening_store (KStr ''theme'')) = signal listening_store
   \<and> \<not> DynamicParameter_has
         (run [Call_clear] (DynamicParameter_remove listening_store (KStr ''theme'')))
         (KStr ''theme'')
   \<and> (3, JStr ''dark'')
       \<in> set (invoked_since
                (run [Call_clear] (DynamicParameter_remove listening_store (KStr ''theme'')))
                (DynamicParameter_set
                   (run [Call_clear] (DynamicParameter_remove listening_store (KStr ''theme'')))
                   (KStr ''theme'') (JStr ''dark'') Undefined None))"
proof -
  have m: "3 \<in> set (listeners listening_store (KStr ''theme''))"
    by (simp add: listening_store_def listeners_listen Set_add_set)
  have g: "DynamicParameter_get (DynamicParameter_set s (KStr ''theme'') (JStr ''dark'') Undefined cb)
             (KStr ''theme'') = JStr ''dark''" for s cb
    by (simp add: DynamicParameter_get_def stack_set update_conv' js_or_def)
  have h: "\<not> DynamicParameter_has
         (run [Call_clear] (DynamicParameter_remove listening_store (KStr ''theme'')))
         (KStr ''theme'')"
    by (simp add: run_def DynamicParameter_has_def DynamicParameter_clear_def)
  from listeners_survive_removal
    [of listening_store "KStr ''theme''" "[Call_clear]" "JStr ''dark''" Undefined None] m
  show ?thesis
    using h by (auto simp: g)
qed

section \<open>Construction and reset\<close>

lemma stack_fold_initialize:
  "stack (fold initialize_step es s) =
     fold (\<lambda>e st. AList.update (fst e) \<lparr>value_p = value_p (snd e),
              defaultValue = js_or (defaultValue (snd e)) (value_p (snd e)),
              callback = callback (snd e)\<rparr> st) es (stack s)"
  by (induction es arbitrary: s) (simp_all add: initialize_step_def stack_set)

lemma initial_fold_initialize: "initial (fold initialize_step es s) = initial s"
  by (induction es arbitrary: s) (simp_all add: initialize_step_def initial_set)

lemma initial_new: "initial (DynamicParameter_new init) = init"
  by (simp add: DynamicParameter_new_def DynamicParameter_initialize_def initial_fold_initialize)

lemma initial_reset: "initial (DynamicParameter_reset s) = initial s"
  by (simp add: DynamicParameter_reset_def DynamicParameter_initialize_def
      initial_fold_initialize DynamicParameter_clear_def)

lemma initial_perform: "initial (perform op s) = initial s"
  by (cases op)
    (simp_all add: initial_set initial_reset DynamicParameter_update_def
      DynamicParameter_remove_def DynamicParameter_clear_def DynamicParameter_listen_def
      DynamicParameter_dispatch_def)

lemma initial_run: "initial (run ops s) = initial s"
  unfolding run_def by (induction ops arbitrary: s) (simp_all add: initial_perform)

lemma stack_reset:
  "stack (DynamicParameter_reset s) = stack (DynamicParameter_new (initial s))"
  by (simp add: DynamicParameter_reset_def DynamicParameter_new_def
      DynamicParameter_initialize_def stack_fold_initialize DynamicParameter_clear_def)

lemma get_cong: "stack s = stack s' \<Longrightarrow> DynamicParameter_get s k = DynamicParameter_get s' k"
  by (simp add: DynamicParameter_get_def)

lemma reset_restores_get:
  "DynamicParameter_get (DynamicParameter_reset (run ops (DynamicParameter_new init))) k =
     DynamicParameter_get (DynamicParameter_new init) k"
  by (rule get_cong) (simp add: stack_reset initial_run initial_new)

text \<open>
  C6. For a store with no listener registered, after any sequence of \<open>set\<close> (without
  callback), \<open>update\<close>, \<open>remove\<close> and \<open>clear\<close> calls, one \<open>reset()\<close> makes \<open>get(k)\<close>,
  for every key of the initial definition, the resolved value that definition produced at
  construction.
\<close>

theorem reset_restores_initial_values:
  assumes "list_all is_plain_write ops"
    and "signal (run ops (DynamicParameter_new init)) = []"
  shows "\<forall>k \<in> fst ` set init.
           DynamicParameter_get (DynamicParameter_reset (run ops (DynamicParameter_new init))) k =
             DynamicParameter_get (DynamicParameter_new init) k"
  by (simp add: reset_restores_get)

lemma signal_plain_write: "is_plain_write op \<Longrightarrow> signal (perform op s) = signal s"
  by (cases op)
    (simp_all add: signal_set DynamicParameter_update_def DynamicParameter_remove_def
      DynamicParameter_clear_def)

lemma signal_plain_writes: "list_all is_plain_write ops \<Longrightarrow> signal (run ops s) = signal s"
  unfolding run_def by (induction ops arbitrary: s) (simp_all add: signal_plain_write)

theorem reset_restores_initial_values_witness:
  "list_all is_plain_write example_writes
   \<and> signal (run example_writes (DynamicParameter_new example_initial)) = []
   \<and> DynamicParameter_get (run example_writes (DynamicParameter_new example_initial))
        (KStr ''theme'') = Undefined
   \<and> DynamicParameter_get
        (DynamicParameter_reset (run example_writes (DynamicParameter_new example_initial)))
        (KStr ''theme'') = JStr ''light''
   \<and> DynamicParameter_get
        (DynamicParameter_reset (run example_writes (DynamicParameter_new example_initial)))
        (KStr ''page'') = JNum 1"
proof -
  have w: "list_all is_plain_write example_writes"
    by (simp add: example_writes_def)
  have s: "signal (run example_writes (DynamicParameter_new example_initial)) = []"
    using example_signal by (simp add: signal_plain_writes [OF w] example_store_def)
  have st: "stack (run example_writes (DynamicParameter_new example_initial)) = []"
    by (simp add: example_writes_def run_def example_initial_def store_defs)
  have g: "DynamicParameter_get (DynamicParameter_new example_initial) (KStr ''theme'') = JStr ''light''
      \<and> DynamicParameter_get (DynamicParameter_new example_initial) (KStr ''page'') = JNum 1"
    using example_stack by (simp add: example_store_def DynamicParameter_get_def js_or_def)
  have t: "DynamicParameter_get (run example_writes (DynamicParameter_new example_initial))
        (KStr ''theme'') = Undefined"
    by (simp add: DynamicParameter_get_def st)
  from reset_restores_initial_values [OF w s]
  show ?thesis using w s g t by (simp add: example_initial_def)
qed

section \<open>Symbol keys\<close>

lemma keys_fold_update:
  "fst ` set (fold (\<lambda>e st. AList.update (fst e) (f e) st) es st0) = fst ` set es \<union> fst ` set st0"
  by (induction es arbitrary: st0) (auto simp: dom_update)

lemma keys_new: "fst ` set (stack (DynamicParameter_new init)) = fst ` set (Object_entries init)"
  by (simp add: DynamicParameter_new_def DynamicParameter_initialize_def stack_fold_initialize
      keys_fold_update)

lemma Object_entries_keys: "k \<in> fst ` set (Object_entries obj) \<Longrightarrow> is_string_key k"
  by (auto simp: Object_entries_def)

text \<open>
  C10. Construction replays \<^verbatim>\<open>Object.entries(initial)\<close>, the string-keyed entries only:
  a symbol key of the initial definition is absent from \<open>stack\<close> after construction, so
  \<open>has\<close> is false and \<open>get\<close> is \<open>undefined\<close> for it.
\<close>

theorem symbol_keys_not_replayed:
  "KSym y \<in> fst ` set init \<Longrightarrow>
     \<not> DynamicParameter_has (DynamicParameter_new init) (KSym y)
     \<and> DynamicParameter_get (DynamicParameter_new init) (KSym y) = Undefined"
proof -
  have n: "KSym y \<notin> fst ` set (stack (DynamicParameter_new init))"
    using Object_entries_keys [of "KSym y" init] by (auto simp: keys_new)
  then have "map_of (stack (DynamicParameter_new init)) (KSym y) = None"
    by (simp add: map_of_eq_None_iff)
  with n show ?thesis by (simp add: has_iff get_absent)
qed

theorem symbol_keys_not_replayed_witness:
  "KSym 0 \<in> fst ` set symbol_initial
   \<and> \<not> DynamicParameter_has (DynamicParameter_new symbol_initial) (KSym 0)
   \<and> DynamicParameter_get (DynamicParameter_new symbol_initial) (KSym 0) = Undefined
   \<and> DynamicParameter_get (DynamicParameter_new symbol_initial) (KStr ''page'') = JNum 1"
proof -
  have h: "KSym 0 \<in> fst ` set symbol_initial" by (simp add: symbol_initial_def)
  have p: "DynamicParameter_get (DynamicParameter_new symbol_initial) (KStr ''page'') = JNum 1"
    by (simp add: symbol_initial_def store_defs)
  from symbol_keys_not_replayed [OF h] h p show ?thesis by simp
qed

section \<open>The entries getter\<close>

lemma Object_assign_plain:
  "proto obj = Object_prototype \<Longrightarrow> k \<noteq> KStr ''__proto__'' \<Longrightarrow>
   Object_assign h k v obj = Inr (obj\<lparr>own := (own obj)(k \<mapsto> v)\<rparr>)"
  by (simp add: Object_assign_def)

lemma entries_loop_plain:
  "proto acc = Object_prototype \<Longrightarrow> KStr ''__proto__'' \<notin> fst ` set xs \<Longrightarrow>
   distinct (map fst xs) \<Longrightarrow>
   \<exists>obj. entries_loop h xs acc = Inr obj \<and> proto obj = Object_prototype
     \<and> (\<forall>k. own obj k =
           (case map_of xs k of None \<Rightarrow> own acc k | Some d \<Rightarrow> Some (value_p d)))"
proof (induction xs arbitrary: acc)
  case Nil
  then show ?case by simp
next
  case (Cons x xs)
  obtain i d where x: "x = (i, d)" by (cases x)
  let ?acc = "acc\<lparr>own := (own acc)(i \<mapsto> value_p d)\<rparr>"
  from Cons.prems x have i: "i \<noteq> KStr ''__proto__''" and nx: "KStr ''__proto__'' \<notin> fst ` set xs"
    and fresh: "i \<notin> fst ` set xs" and dist: "distinct (map fst xs)"
    by auto
  from fresh have none: "map_of xs i = None" by (simp add: map_of_eq_None_iff)
  have step: "entries_loop h (x # xs) acc = entries_loop h xs ?acc"
    using Cons.prems(1) i by (simp add: x Object_assign_plain)
  have "proto ?acc = Object_prototype" using Cons.prems(1) by simp
  from Cons.IH [OF this nx dist] obtain obj where
    r: "entries_loop h xs ?acc = Inr obj" and p: "proto obj = Object_prototype"
    and o: "\<forall>k. own obj k =
           (case map_of xs k of None \<Rightarrow> own ?acc k | Some d \<Rightarrow> Some (value_p d))"
    by blast
  have "own obj k =
           (case map_of (x # xs) k of None \<Rightarrow> own acc k | Some d \<Rightarrow> Some (value_p d))" for k
    using o [rule_format, of k] none by (simp add: x split: option.split)
  with r p step show ?case by simp
qed

text \<open>
  C7, as the code has it. For a store whose \<open>stack\<close> has no key \<^verbatim>\<open>__proto__\<close>, the
  \<open>entries\<close> getter returns a plain object whose own properties are exactly the keys of
  \<open>stack\<close>, each holding the \<open>value\<close> field stored for that key: the raw value, not the
  resolved one. The two agree when the stored value is truthy. \<open>clone()\<close> hands an object
  with the same properties to the constructor.
\<close>

theorem entries_hold_stored_values:
  assumes "store_ok s" and "KStr ''__proto__'' \<notin> fst ` set (stack s)"
  shows "\<exists>obj. DynamicParameter_entries h s = Inr obj
           \<and> proto obj = Object_prototype
           \<and> (\<forall>k. own obj k = map_option value_p (map_of (stack s) k))
           \<and> (\<forall>k d. map_of (stack s) k = Some d \<and> truthy (value_p d)
                  \<longrightarrow> own obj k = Some (DynamicParameter_get s k))
           \<and> DynamicParameter_clone_argument h s = Inr obj"
proof -
  have e: "proto empty_object = Object_prototype" by (simp add: empty_object_def)
  from assms(1) have dist: "distinct (map fst (stack s))" by (simp add: store_ok_def)
  from entries_loop_plain [OF e assms(2) dist, of h] obtain obj where
    r: "entries_loop h (stack s) empty_object = Inr obj" and p: "proto obj = Object_prototype"
    and o: "\<forall>k. own obj k =
           (case map_of (stack s) k of None \<Rightarrow> own empty_object k | Some d \<Rightarrow> Some (value_p d))"
    by blast
  have own: "own obj k = map_option value_p (map_of (stack s) k)" for k
    using o [rule_format, of k] by (simp add: empty_object_def split: option.split)
  have res: "own obj k = Some (DynamicParameter_get s k)"
    if "map_of (stack s) k = Some d \<and> truthy (value_p d)" for k d
    using that own [of k] by (simp add: get_present)
  from p have "spread obj = obj" by (simp add: spread_def)
  with r have c: "DynamicParameter_clone_argument h s = Inr obj"
    by (simp add: DynamicParameter_clone_argument_def DynamicParameter_entries_def)
  from r own res p c show ?thesis
    unfolding DynamicParameter_entries_def by blast
qed

lemma page_zero_stack:
  "stack page_zero_store =
     [(KStr ''page'', \<lparr>value_p = JNum 0, defaultValue = JNum 0, callback = None\<rparr>)]"
  by (simp add: page_zero_store_def store_defs)

lemma proto_stack:
  "stack proto_store =
     [(KStr ''__proto__'', \<lparr>value_p = JNum 1, defaultValue = JNum 1, callback = None\<rparr>)]"
  by (simp add: proto_store_def store_defs)

lemma frozen_proto_stack:
  "stack frozen_proto_store =
     [(KStr ''__proto__'', \<lparr>value_p = JObj 0, defaultValue = JObj 0, callback = None\<rparr>),
      (KStr ''page'', \<lparr>value_p = JNum 5, defaultValue = JNum 5, callback = None\<rparr>)]"
  by (simp add: frozen_proto_store_def store_defs)

text \<open>
  Three stores at which \<open>entries\<close> does not hold the resolved value of a key of \<open>stack\<close>.
  After \<open>set("page", 0)\<close>, \<open>entries\<close> holds \<open>0\<close> for \<^verbatim>\<open>page\<close> and \<open>get("page")\<close> is
  \<open>undefined\<close>. After \<open>set("__proto__", 1)\<close>, \<open>get\<close> gives \<open>1\<close> and \<open>entries\<close> has no
  such property. After \<open>set("__proto__", o)\<close> and \<open>set("page", 5)\<close>, with \<^verbatim>\<open>page\<close>
  read-only in \<open>o\<close>, the getter raises \<^verbatim>\<open>TypeError\<close>.
\<close>

theorem entries_not_resolved_counterexample:
  "DynamicParameter_has page_zero_store (KStr ''page'')
   \<and> own_property (DynamicParameter_entries ordinary_heap page_zero_store) (KStr ''page'')
       = Inr (Some (JNum 0))
   \<and> DynamicParameter_get page_zero_store (KStr ''page'') = Undefined
   \<and> own_property (DynamicParameter_entries ordinary_heap page_zero_store) (KStr ''page'')
       \<noteq> Inr (Some (DynamicParameter_get page_zero_store (KStr ''page'')))
   \<and> DynamicParameter_has proto_store (KStr ''__proto__'')
   \<and> DynamicParameter_get proto_store (KStr ''__proto__'') = JNum 1
   \<and> own_property (DynamicParameter_entries ordinary_heap proto_store) (KStr ''__proto__'')
       = Inr None
   \<and> DynamicParameter_has frozen_proto_store (KStr ''page'')
   \<and> DynamicParameter_get frozen_proto_store (KStr ''page'') = JNum 5
   \<and> DynamicParameter_entries frozen_page_heap frozen_proto_store = Inl TypeError"
  by (simp add: DynamicParameter_has_def DynamicParameter_get_def DynamicParameter_entries_def
      own_property_def Object_assign_def empty_object_def js_or_def ordinary_heap_def
      frozen_page_heap_def page_zero_stack proto_stack frozen_proto_stack)

theorem entries_hold_stored_values_witness:
  "store_ok example_store \<and> KStr ''__proto__'' \<notin> fst ` set (stack example_store)
   \<and> own_property (DynamicParameter_entries ordinary_heap example_store) (KStr ''page'')
       = Inr (Some (JNum 1))
   \<and> own_property (DynamicParameter_entries ordinary_heap example_store) (KStr ''missing'')
       = Inr None
   \<and> own_property (DynamicParameter_clone_argument ordinary_heap example_store) (KStr ''theme'')
       = Inr (Some (JStr ''light''))
   \<and> DynamicParameter_get example_store (KStr ''page'') = JNum 1"
proof -
  have ok: "store_ok example_store"
    by (simp add: store_ok_def example_stack example_signal)
  have n: "KStr ''__proto__'' \<notin> fst ` set (stack example_store)"
    by (simp add: example_stack)
  from entries_hold_stored_values [OF ok n, of ordinary_heap] obtain obj where
    r: "DynamicParameter_entries ordinary_heap example_store = Inr obj"
    and o: "\<forall>k. own obj k = map_option value_p (map_of (stack example_store) k)"
    and c: "DynamicParameter_clone_argument ordinary_heap example_store = Inr obj"
    by blast
  have "own obj (KStr ''page'') = Some (JNum 1)"
    using o [rule_format, of "KStr ''page''"] by (simp add: example_stack)
  moreover have "own obj (KStr ''missing'') = None"
    using o [rule_format, of "KStr ''missing''"] by (simp add: example_stack)
  moreover have "own obj (KStr ''theme'') = Some (JStr ''light'')"
    using o [rule_format, of "KStr ''theme''"] by (simp add: example_stack)
  moreover have "DynamicParameter_get example_store (KStr ''page'') = JNum 1"
    by (simp add: DynamicParameter_get_def example_stack js_or_def)
  ultimately show ?thesis
    using ok n r c by (simp add: own_property_def)
qed

section \<open>StaticParameter: the value getter\<close>

lemma static_value_cases:
  "StaticParameter_value s =
     (case static_stack s of [] \<Rightarrow> Undefined | x # xs \<Rightarrow> if truthy x then x else Undefined)"
  by (simp add: StaticParameter_value_def StaticParameter_entries_def js_or_def split: list.split)

lemma Set_add_head: "\<exists>ys. Set_add v (x # xs) = x # ys"
  by (simp add: Set_add_def)

lemma static_fold_add_head:
  "static_stack s = x # xs \<Longrightarrow>
   \<exists>ys. static_stack (fold (\<lambda>v s'. StaticParameter_add s' v) vs s) = x # ys"
proof (induction vs arbitrary: s xs)
  case Nil
  then show ?case by simp
next
  case (Cons v vs)
  from Cons.prems obtain ys where "static_stack (StaticParameter_add s v) = x # ys"
    using Set_add_head [of v x xs] by (auto simp: StaticParameter_add_def)
  then show ?case using Cons.IH by simp
qed

lemma static_new_head: "\<exists>ys. static_stack (StaticParameter_new (v # vs)) = v # ys"
proof -
  let ?s = "StaticParameter_add \<lparr>static_initial = v # vs, static_stack = []\<rparr> v"
  have "static_stack ?s = [v]" by (simp add: StaticParameter_add_def Set_add_def)
  from static_fold_add_head [OF this, of vs] show ?thesis
    by (simp add: StaticParameter_new_def StaticParameter_initialize_def)
qed

text \<open>
  What the getter computes: the first element in insertion order when the set is not
  empty and that element is truthy, \<open>undefined\<close> when the set is empty and also when the
  first element is falsy. The first value a constructor receives stays the first element.
\<close>

lemma static_value_first_truthy:
  "(static_stack s = [] \<longrightarrow> StaticParameter_value s = Undefined)
   \<and> (\<forall>x xs. static_stack s = x # xs \<longrightarrow>
         StaticParameter_value s = (if truthy x then x else Undefined))
   \<and> StaticParameter_value (StaticParameter_new (v # vs)) = (if truthy v then v else Undefined)"
proof -
  obtain ys where "static_stack (StaticParameter_new (v # vs)) = v # ys"
    using static_new_head by blast
  then show ?thesis by (simp add: static_value_cases)
qed

lemma static_value_truthy_first:
  "static_stack (StaticParameter_new [JStr ''a'', JStr ''a'', JStr ''b'']) = [JStr ''a'', JStr ''b'']
   \<and> StaticParameter_value (StaticParameter_new [JStr ''a'', JStr ''a'', JStr ''b'']) = JStr ''a''
   \<and> static_stack (StaticParameter_new []) = []
   \<and> StaticParameter_value (StaticParameter_new []) = Undefined"
  by (simp add: StaticParameter_new_def StaticParameter_initialize_def StaticParameter_add_def
      StaticParameter_value_def StaticParameter_entries_def Set_add_def js_or_def)

text \<open>
  C8. The \<open>value\<close> getter is to return the first element in insertion order whenever the
  set is not empty, and to be \<open>undefined\<close> only for the empty set. The code does not do
  so: \<^verbatim>\<open>new StaticParameter([0, "a"])\<close> holds \<open>0\<close> and \<open>"a"\<close> in this order, and its
  \<open>value\<close> is \<open>undefined\<close>, because \<^verbatim>\<open>[0, "a"][0] || undefined\<close> replaces the falsy first
  element.
\<close>

theorem static_value_masks_falsy_first:
  "StaticParameter_entries (StaticParameter_new [JNum 0, JStr ''a'']) = [JNum 0, JStr ''a'']
   \<and> StaticParameter_has (StaticParameter_new [JNum 0, JStr ''a'']) (JNum 0)
   \<and> StaticParameter_value (StaticParameter_new [JNum 0, JStr ''a'']) = Undefined
   \<and> StaticParameter_value (StaticParameter_new [JNum 0, JStr ''a'']) \<noteq> JNum 0"
  by (simp add: StaticParameter_new_def StaticParameter_initialize_def StaticParameter_add_def
      StaticParameter_value_def StaticParameter_entries_def StaticParameter_has_def
      Set_add_def js_or_def)

end
